theory Spec2Isabelle
  imports
    Complex_Main
    "HOL-Library.Char_ord"
    "HOL-Library.List_Lexorder"
    "HOL-Library.Product_Lexorder"
    "HOL-Library.Sublist"
    "HOL-Library.Multiset"
begin

section \<open>Text helpers of the Python runtime\<close>

text \<open>
  A Python \<open>str\<close> is modelled as a \<open>string\<close>. The model covers ASCII text:
  \<open>str.lower\<close> maps \<open>A\<close>..\<open>Z\<close> to \<open>a\<close>..\<open>z\<close> and leaves every other character as it
  is, and \<open>str.strip\<close> removes the ASCII whitespace characters (code points 9 to 13,
  28 to 31 and 32) from both ends.
\<close>

definition lower_char :: "char \<Rightarrow> char" where
  "lower_char c =
     (let n = (of_char c :: nat) in if 65 \<le> n \<and> n \<le> 90 then char_of (n + 32) else c)"

definition lower :: "string \<Rightarrow> string" where
  "lower s = map lower_char s"

definition isspace :: "char \<Rightarrow> bool" where
  "isspace c =
     (let n = (of_char c :: nat) in (9 \<le> n \<and> n \<le> 13) \<or> (28 \<le> n \<and> n \<le> 32))"

definition strip :: "string \<Rightarrow> string" where
  "strip s = rev (dropWhile isspace (rev (dropWhile isspace s)))"

section \<open>Column resolution: \<open>find_col\<close>\<close>

text \<open>
  \<open>find_col\<close> is a closure over the header row \<open>df.columns\<close>, which is its first
  argument here. The two inner \<open>for c in df.columns\<close> loops are \<open>scan_columns\<close>: the first
  header whose trimmed, lower-cased text equals that of the wanted name.
\<close>

fun scan_columns :: "string list \<Rightarrow> string \<Rightarrow> string option" where
  "scan_columns [] wanted = None"
| "scan_columns (c # cs) wanted =
     (if lower (strip c) = lower (strip wanted) then Some c else scan_columns cs wanted)"

fun find_fallback :: "string list \<Rightarrow> string list \<Rightarrow> string option" where
  "find_fallback columns [] = None"
| "find_fallback columns (name # names) =
     (if name \<in> set columns then Some name
      else (case scan_columns columns name of
              Some c \<Rightarrow> Some c
            | None \<Rightarrow> find_fallback columns names))"

definition find_col :: "string list \<Rightarrow> string \<Rightarrow> string list \<Rightarrow> string option" where
  "find_col columns target_name fallbacks =
     (if target_name \<in> set columns then Some target_name
      else (case scan_columns columns target_name of
              Some c \<Rightarrow> Some c
            | None \<Rightarrow> find_fallback columns fallbacks))"

subsection \<open>The search order as the specification words it\<close>

text \<open>
  The specification describes resolution as a list of steps tried in order: an exact
  match and then a case-insensitive, whitespace-trimmed match for the canonical name,
  and the same pair for each fallback name in the order listed. The answer is the
  outcome of the first step that matches a header, and "not found" when none does.
\<close>

datatype step = Exact string | Loose string

fun run_step :: "string list \<Rightarrow> step \<Rightarrow> string option" where
  "run_step columns (Exact name) = (if name \<in> set columns then Some name else None)"
| "run_step columns (Loose name) =
     List.find (\<lambda>c. lower (strip c) = lower (strip name)) columns"

definition search_order :: "string \<Rightarrow> string list \<Rightarrow> step list" where
  "search_order target_name fallbacks =
     Exact target_name # Loose target_name # concat (map (\<lambda>f. [Exact f, Loose f]) fallbacks)"

fun first_match :: "string list \<Rightarrow> step list \<Rightarrow> string option" where
  "first_match columns [] = None"
| "first_match columns (s # ss) =
     (case run_step columns s of Some c \<Rightarrow> Some c | None \<Rightarrow> first_match columns ss)"

definition resolve_spec :: "string list \<Rightarrow> string \<Rightarrow> string list \<Rightarrow> string option" where
  "resolve_spec columns target_name fallbacks =
     first_match columns (search_order target_name fallbacks)"

section \<open>The table and the values of its cells\<close>

text \<open>
  \<open>pd.read_excel\<close> hands the program a table whose header names are pairwise distinct
  strings. A cell is a missing marker, a text or a number; the three missing markers of
  the runtime are kept apart because they are written out differently: the float
  \<open>nan\<close> of an empty spreadsheet cell, Python's \<open>None\<close>, and \<open>pd.NA\<close> of the nullable
  integer columns. Numbers are the exact values of the 64-bit floats and integers.
  Booleans and dates are outside the model.
\<close>

datatype cell = NaN | PyNone | NA | Text string | IntVal int | FloatVal rat

record frame =
  columns :: "string list"
  rows :: "cell list list"

text \<open>
  Two functions of the runtime are taken as parameters: how a float is printed by
  \<open>str\<close>, and which texts \<open>pd.to_numeric\<close> reads as a (finite) number.
\<close>

record runtime =
  float_str :: "rat \<Rightarrow> string"
  to_number :: "string \<Rightarrow> rat option"

record config =
  image_base_url :: string
  brand_col :: string
  product_desc_col :: string
  article_code_col :: string
  discount_col :: string
  sort_products_by :: "string option"

definition default_config :: config where
  "default_config = \<lparr>
     image_base_url =
       ''https://cdn.jsdelivr.net/gh/TVScoundrel/artstory-data-sources@main/product-images/'',
     brand_col = ''Brand'',
     product_desc_col = ''Products'',
     article_code_col = ''Article code '',
     discount_col = ''Discount %'',
     sort_products_by = None \<rparr>"

datatype error =
    ValueError string
  | KeyError
  | AmbiguousLabel
  | CastError
  | AttributeError
  | TypeError

definition isna :: "cell \<Rightarrow> bool" where
  "isna c = (c = NaN \<or> c = PyNone \<or> c = NA)"

subsection \<open>\<open>str\<close> of a value\<close>

fun nat_str :: "nat \<Rightarrow> string" where
  "nat_str n =
     (if n < 10 then [char_of (48 + n)] else nat_str (n div 10) @ [char_of (48 + n mod 10)])"

definition int_str :: "int \<Rightarrow> string" where
  "int_str i = (if i < 0 then CHR ''-'' # nat_str (nat (- i)) else nat_str (nat i))"

fun py_str :: "runtime \<Rightarrow> cell \<Rightarrow> string" where
  "py_str py NaN = ''nan''"
| "py_str py PyNone = ''None''"
| "py_str py NA = ''<NA>''"
| "py_str py (Text s) = s"
| "py_str py (IntVal i) = int_str i"
| "py_str py (FloatVal q) = float_str py q"

subsection \<open>Columns by label\<close>

fun index_of :: "string \<Rightarrow> string list \<Rightarrow> nat option" where
  "index_of c [] = None"
| "index_of c (x # xs) =
     (if x = c then Some 0 else map_option Suc (index_of c xs))"

definition count_label :: "string \<Rightarrow> string list \<Rightarrow> nat" where
  "count_label c cs = length (filter (\<lambda>x. x = c) cs)"

definition column_cells :: "nat \<Rightarrow> cell list list \<Rightarrow> cell list" where
  "column_cells i rs = map (\<lambda>r. r ! i) rs"

definition map_column :: "nat \<Rightarrow> (cell \<Rightarrow> cell) \<Rightarrow> cell list list \<Rightarrow> cell list list" where
  "map_column i f rs = map (\<lambda>r. r[i := f (r ! i)]) rs"

text \<open>
  The dtype test \<open>dtype == object\<close>: a column is object-typed when it holds a text or a
  \<open>None\<close>, and also when the table has no rows at all; a column of numbers and empty
  cells is numeric.
\<close>

definition is_object :: "cell list \<Rightarrow> bool" where
  "is_object cs = (cs = [] \<or> list_ex (\<lambda>c. case c of Text s \<Rightarrow> True | PyNone \<Rightarrow> True | _ \<Rightarrow> False) cs)"

section \<open>Resolving the required columns (lines 34 to 48)\<close>

text \<open>\<open>not x\<close> for the result of \<open>find_col\<close>: \<open>None\<close> and the empty string are both falsy.\<close>

definition falsy :: "string option \<Rightarrow> bool" where
  "falsy x = (case x of None \<Rightarrow> True | Some s \<Rightarrow> s = [])"

definition resolve_brand :: "config \<Rightarrow> frame \<Rightarrow> error + string" where
  "resolve_brand cfg df =
     (let b = find_col (columns df) (brand_col cfg) [] in
      if falsy b then Inl (ValueError ''Could not find a 'Brand' column.'')
      else Inr (the b))"

definition resolve_product_desc :: "config \<Rightarrow> frame \<Rightarrow> string \<Rightarrow> error + string" where
  "resolve_product_desc cfg df brand =
     (let p = find_col (columns df) (product_desc_col cfg)
                [''Product'', ''Product name'', ''Description''] in
      if \<not> falsy p then Inr (the p)
      else
        (let q = List.find
                   (\<lambda>c. c \<noteq> brand \<and>
                        is_object (column_cells (the (index_of c (columns df))) (rows df)))
                   (columns df) in
         if falsy q then Inl (ValueError ''Could not infer a product description column.'')
         else Inr (the q)))"

definition resolve_article_code :: "config \<Rightarrow> frame \<Rightarrow> string option" where
  "resolve_article_code cfg df =
     find_col (columns df) (article_code_col cfg) [''Article code'', ''Code'', ''SKU'']"

definition resolve_discount :: "config \<Rightarrow> frame \<Rightarrow> string option" where
  "resolve_discount cfg df =
     find_col (columns df) (discount_col cfg)
       [''Discount%'', ''Discount'', ''DISCOUNT %'', ''discount %'']"

section \<open>Normalising the Brand and Discount columns (lines 50 to 61)\<close>

text \<open>
  Line 50: \<open>astype(str)\<close> prints every cell of the Brand column, the missing marker
  included (in pandas 1 and 2, where text columns are object-typed, it becomes the text
  \<open>nan\<close>), and \<open>.str.strip()\<close> trims the text.
\<close>

definition strip_brand :: "runtime \<Rightarrow> string \<Rightarrow> frame \<Rightarrow> frame" where
  "strip_brand py brand df =
     df\<lparr>rows := map_column (the (index_of brand (columns df)))
                    (\<lambda>c. Text (strip (py_str py c))) (rows df)\<rparr>"

text \<open>\<open>pd.to_numeric(errors="coerce")\<close> on one cell; \<open>None\<close> is the float \<open>nan\<close>.\<close>

fun to_numeric :: "runtime \<Rightarrow> cell \<Rightarrow> rat option" where
  "to_numeric py (IntVal i) = Some (of_int i)"
| "to_numeric py (FloatVal q) = Some q"
| "to_numeric py (Text s) = to_number py s"
| "to_numeric py c = None"

text \<open>\<open>.round(0)\<close> rounds to the nearest integer, a tie to the even neighbour.\<close>

definition round_half_even :: "rat \<Rightarrow> int" where
  "round_half_even q =
     (let f = \<lfloor>q\<rfloor>; d = q - of_int f in
      if d < 1 / 2 then f
      else if 1 / 2 < d then f + 1
      else if even f then f else f + 1)"

text \<open>
  \<open>.astype("Int64")\<close> keeps a missing value missing (\<open>pd.NA\<close>) and refuses a value that
  does not fit 64 bits. Line 59 replaces the missing values of the nullable integer
  column by \<open>None\<close>, which that column stores as \<open>pd.NA\<close> again.
\<close>

definition discount_cell :: "runtime \<Rightarrow> cell \<Rightarrow> error + cell" where
  "discount_cell py c =
     (case to_numeric py c of
        None \<Rightarrow> Inr NA
      | Some q \<Rightarrow>
          (let n = \<bar>round_half_even q\<bar> in
           if n < 2 ^ 63 then Inr (IntVal n) else Inl CastError))"

fun collect :: "(error + 'a) list \<Rightarrow> error + 'a list" where
  "collect [] = Inr []"
| "collect (x # xs) =
     (case x of
        Inl e \<Rightarrow> Inl e
      | Inr v \<Rightarrow> (case collect xs of Inl e \<Rightarrow> Inl e | Inr vs \<Rightarrow> Inr (v # vs)))"

definition set_column :: "nat \<Rightarrow> cell list \<Rightarrow> cell list list \<Rightarrow> cell list list" where
  "set_column i vs rs = map (\<lambda>(r, v). r[i := v]) (zip rs vs)"

definition normalize_discount :: "runtime \<Rightarrow> string option \<Rightarrow> frame \<Rightarrow> error + frame" where
  "normalize_discount py discount df =
     (if \<not> falsy discount \<and> the discount \<in> set (columns df) then
        (let i = the (index_of (the discount) (columns df)) in
         case collect (map (discount_cell py) (column_cells i (rows df))) of
           Inl e \<Rightarrow> Inl e
         | Inr vs \<Rightarrow>
             Inr \<lparr>columns = (columns df)[i := ''Discount''],
                  rows = set_column i vs (rows df)\<rparr>)
      else Inr df)"

section \<open>The Image column (lines 64 to 74)\<close>

definition endswith :: "string \<Rightarrow> string list \<Rightarrow> bool" where
  "endswith s exts =
     list_ex (\<lambda>e. length e \<le> length s \<and> drop (length s - length e) s = e) exts"

definition build_image :: "runtime \<Rightarrow> string \<Rightarrow> cell \<Rightarrow> cell" where
  "build_image py base val =
     (if isna val then PyNone
      else
        (let v = strip (py_str py val) in
         if v = [] then PyNone
         else if endswith (lower v) [''.jpg'', ''.jpeg'', ''.png'', ''.webp''] then Text (base @ v)
         else Text (base @ v @ ''.jpg'')))"

text \<open>
  \<open>df["Image"] = ...\<close> overwrites a column of that name and otherwise appends one. A
  label that two columns carry (possible after the renaming of line 61) selects a table,
  on which \<open>apply(build_image)\<close> raises.
\<close>

definition add_image :: "runtime \<Rightarrow> string \<Rightarrow> string option \<Rightarrow> frame \<Rightarrow> error + frame" where
  "add_image py base article df =
     (if \<not> falsy article \<and> the article \<in> set (columns df) \<and> base \<noteq> [] then
        (if count_label (the article) (columns df) \<noteq> 1 then Inl AmbiguousLabel
         else
           (let vs = map (build_image py base)
                       (column_cells (the (index_of (the article) (columns df))) (rows df)) in
            case index_of ''Image'' (columns df) of
              Some j \<Rightarrow> Inr (df\<lparr>rows := set_column j vs (rows df)\<rparr>)
            | None \<Rightarrow>
                Inr \<lparr>columns = columns df @ [''Image''],
                     rows = map (\<lambda>(r, v). r @ [v]) (zip (rows df) vs)\<rparr>))
      else Inr df)"

section \<open>Grouping and sorting (lines 76 to 96)\<close>

text \<open>
  The prepared table, the label of its Brand column and the label of the product sort
  key (\<open>sort_products_by or product_desc_col\<close>, line 76).
\<close>

record prepared =
  table :: frame
  brand :: string
  sort_col :: string

definition prepare :: "runtime \<Rightarrow> config \<Rightarrow> frame \<Rightarrow> error + prepared" where
  "prepare py cfg df =
     (case resolve_brand cfg df of
        Inl e \<Rightarrow> Inl e
      | Inr b \<Rightarrow>
     (case resolve_product_desc cfg df b of
        Inl e \<Rightarrow> Inl e
      | Inr p \<Rightarrow>
     (let a = resolve_article_code cfg df;
          d = resolve_discount cfg df;
          df1 = strip_brand py b df in
      case normalize_discount py d df1 of
        Inl e \<Rightarrow> Inl e
      | Inr df2 \<Rightarrow>
     (case add_image py (image_base_url cfg) a df2 of
        Inl e \<Rightarrow> Inl e
      | Inr df3 \<Rightarrow>
          Inr \<lparr>table = df3, brand = b,
               sort_col = (case sort_products_by cfg of
                             None \<Rightarrow> p
                           | Some s \<Rightarrow> if s = [] then p else s)\<rparr>))))"

text \<open>
  \<open>groupby(brand_col, dropna=False)\<close>: one group for each distinct key, the missing
  values together in one group; the groups come in ascending order of the key with the
  missing key last, and a group lists its rows (by position) in table order. A label
  that no column or more than one column carries makes \<open>groupby\<close> raise.
\<close>

definition group_key :: "cell \<Rightarrow> cell" where
  "group_key c = (if isna c then NaN else c)"

fun key_rank :: "cell \<Rightarrow> nat \<times> rat \<times> string" where
  "key_rank (Text s) = (0, 0, s)"
| "key_rank (IntVal i) = (0, of_int i, [])"
| "key_rank (FloatVal q) = (0, q, [])"
| "key_rank c = (1, 0, [])"

definition groupby :: "string \<Rightarrow> frame \<Rightarrow> error + (cell \<times> nat list) list" where
  "groupby label df =
     (if count_label label (columns df) = 0 then Inl KeyError
      else if count_label label (columns df) \<noteq> 1 then Inl AmbiguousLabel
      else
        (let ks = map group_key (column_cells (the (index_of label (columns df))) (rows df)) in
         Inr (map (\<lambda>k. (k, filter (\<lambda>i. ks ! i = k) [0..<length ks]))
                (sort_key key_rank (remdups ks)))))"

text \<open>
  \<open>sort_values(by=sort_key, key=..., na_position="last")\<close> on the rows of one group. The
  key of an object-typed column is \<open>s.str.lower()\<close>: the lower-cased text, and missing for
  every cell that is not a text; the \<open>.str\<close> accessor raises when the group's cells are
  numbers only. The key of a numeric column is the number. Rows with a key are put in
  ascending order of the key, rows without one follow in group order. (The library does
  not promise an order among rows of equal key; the model keeps their group order.)
\<close>

definition text_key :: "cell \<Rightarrow> string option" where
  "text_key c = (case c of Text s \<Rightarrow> Some (lower s) | _ \<Rightarrow> None)"

definition num_key :: "cell \<Rightarrow> rat option" where
  "num_key c = (case c of IntVal i \<Rightarrow> Some (of_int i) | FloatVal q \<Rightarrow> Some q | _ \<Rightarrow> None)"

definition str_accessor_ok :: "cell list \<Rightarrow> bool" where
  "str_accessor_ok cs = (list_ex (\<lambda>c. text_key c \<noteq> None) cs \<or> \<not> list_ex (\<lambda>c. \<not> isna c) cs)"

definition sort_last :: "(nat \<Rightarrow> 'k::linorder option) \<Rightarrow> nat list \<Rightarrow> nat list" where
  "sort_last k ps =
     sort_key (\<lambda>i. the (k i)) (filter (\<lambda>i. k i \<noteq> None) ps) @ filter (\<lambda>i. k i = None) ps"

definition sort_group :: "frame \<Rightarrow> string \<Rightarrow> nat list \<Rightarrow> error + nat list" where
  "sort_group df key_col ps =
     (if key_col \<in> set (columns df) then
        (if count_label key_col (columns df) \<noteq> 1 then Inl AmbiguousLabel
         else
           (let col = column_cells (the (index_of key_col (columns df))) (rows df) in
            if is_object col then
              (if str_accessor_ok (map (\<lambda>i. col ! i) ps)
               then Inr (sort_last (\<lambda>i. text_key (col ! i)) ps)
               else Inl AttributeError)
            else Inr (sort_last (\<lambda>i. num_key (col ! i)) ps)))
      else Inr ps)"

text \<open>
  Line 89: \<open>drop(columns=[brand_col])\<close> removes every column of that label, and
  \<open>to_dict(orient="records")\<close> builds one Python \<open>dict\<close> for each row: a later column of
  the same label overwrites the value of an earlier one. Every value is handed over as a
  native Python value; pandas 2 hands a \<open>pd.NA\<close> over as \<open>None\<close>, and leaves the float
  \<open>nan\<close> as it is.
\<close>

type_synonym product = "(string \<times> cell) list"

definition box_native :: "cell \<Rightarrow> cell" where
  "box_native c = (if c = NA then PyNone else c)"

fun dict_set :: "string \<Rightarrow> cell \<Rightarrow> product \<Rightarrow> product" where
  "dict_set k v [] = [(k, v)]"
| "dict_set k v ((k', v') # d) = (if k' = k then (k, v) # d else (k', v') # dict_set k v d)"

definition to_record :: "string list \<Rightarrow> cell list \<Rightarrow> product" where
  "to_record cs r = foldl (\<lambda>d (k, v). dict_set k (box_native v) d) [] (zip cs r)"

definition drop_label :: "string \<Rightarrow> string list \<Rightarrow> cell list \<Rightarrow> cell list" where
  "drop_label b cs r = map snd (filter (\<lambda>(c, v). c \<noteq> b) (zip cs r))"

definition product_of :: "prepared \<Rightarrow> nat \<Rightarrow> product" where
  "product_of p i =
     to_record (filter (\<lambda>c. c \<noteq> brand p) (columns (table p)))
       (drop_label (brand p) (columns (table p)) (rows (table p) ! i))"

text \<open>
  One entry of \<open>brands\<close>. The field \<open>members\<close> is not in the program's dictionary: it
  records which rows of the table (by position) the products were made from, in the
  order of the products.
\<close>

record brand_group =
  name :: "string option"
  members :: "nat list"
  products :: "product list"

definition make_group :: "runtime \<Rightarrow> prepared \<Rightarrow> cell \<times> nat list \<Rightarrow> error + brand_group" where
  "make_group py p g =
     (case sort_group (table p) (sort_col p) (snd g) of
        Inl e \<Rightarrow> Inl e
      | Inr ps \<Rightarrow>
          Inr \<lparr>name = (if isna (fst g) then None else Some (py_str py (fst g))),
               members = ps,
               products = map (product_of p) ps\<rparr>)"

text \<open>
  Line 96: \<open>sorted\<close> is stable; its key is the pair \<open>(name is None, (name or "").lower())\<close>,
  compared as Python compares tuples, \<open>False\<close> before \<open>True\<close>, and strings as Python
  compares them: character by character in code-point order, a proper prefix first
  (the order \<open>\<le>\<close> on \<open>string\<close> here).
\<close>

definition brand_sort_key :: "brand_group \<Rightarrow> bool \<times> string" where
  "brand_sort_key b = (name b = None, lower (case name b of None \<Rightarrow> [] | Some s \<Rightarrow> s))"

definition sort_brands :: "brand_group list \<Rightarrow> brand_group list" where
  "sort_brands bs = sort_key brand_sort_key bs"

definition build_output :: "runtime \<Rightarrow> config \<Rightarrow> frame \<Rightarrow> error + brand_group list" where
  "build_output py cfg df =
     (case prepare py cfg df of
        Inl e \<Rightarrow> Inl e
      | Inr p \<Rightarrow>
     (case groupby (brand p) (table p) of
        Inl e \<Rightarrow> Inl e
      | Inr gs \<Rightarrow>
     (case collect (map (make_group py p) gs) of
        Inl e \<Rightarrow> Inl e
      | Inr bs \<Rightarrow> Inr (sort_brands bs))))"

section \<open>Writing the document (lines 97 to 101)\<close>

text \<open>
  What \<open>json.dump\<close> writes for a value: \<open>null\<close> for \<open>None\<close>, the token \<open>NaN\<close> for the
  float \<open>nan\<close>, a string or a number otherwise; \<open>pd.NA\<close> is not serialisable and makes
  it raise (no record holds one). The written text is modelled by its tree.
\<close>

datatype json = JNull | JNaN | JString string | JInt int | JFloat rat

fun dump_cell :: "cell \<Rightarrow> error + json" where
  "dump_cell PyNone = Inr JNull"
| "dump_cell NaN = Inr JNaN"
| "dump_cell NA = Inl TypeError"
| "dump_cell (Text s) = Inr (JString s)"
| "dump_cell (IntVal i) = Inr (JInt i)"
| "dump_cell (FloatVal q) = Inr (JFloat q)"

type_synonym json_brand = "json \<times> (string \<times> json) list list"

definition dump_product :: "product \<Rightarrow> error + (string \<times> json) list" where
  "dump_product d =
     collect (map (\<lambda>(k, v). case dump_cell v of Inl e \<Rightarrow> Inl e | Inr j \<Rightarrow> Inr (k, j)) d)"

definition dump_brand :: "brand_group \<Rightarrow> error + json_brand" where
  "dump_brand b =
     (case collect (map dump_product (products b)) of
        Inl e \<Rightarrow> Inl e
      | Inr ps \<Rightarrow> Inr (case name b of None \<Rightarrow> JNull | Some s \<Rightarrow> JString s, ps))"

definition json_dump :: "brand_group list \<Rightarrow> error + json_brand list" where
  "json_dump doc = collect (map dump_brand doc)"

text \<open>
  The effect of a run on the output path: nothing was opened; the file was opened for
  writing and \<open>json.dump\<close> raised, which leaves a truncated file; or the whole document
  was written.
\<close>

datatype effect = NoFile | PartialFile | Written "json_brand list"

definition convert_excel_to_json :: "runtime \<Rightarrow> config \<Rightarrow> frame \<Rightarrow> error option \<times> effect" where
  "convert_excel_to_json py cfg df =
     (case build_output py cfg df of
        Inl e \<Rightarrow> (Some e, NoFile)
      | Inr doc \<Rightarrow>
          (case json_dump doc of
             Inl e \<Rightarrow> (Some e, PartialFile)
           | Inr j \<Rightarrow> (None, Written j)))"

section \<open>What the orderings of the specification mean\<close>

text \<open>
  "Missing last, otherwise ascending" for a list of row positions with a key function:
  a row may stand before another when the other has no key, or both have one and the
  first key is not greater.
\<close>

definition key_le :: "'k::linorder option \<Rightarrow> 'k option \<Rightarrow> bool" where
  "key_le a b = (case b of None \<Rightarrow> True | Some y \<Rightarrow> (case a of None \<Rightarrow> False | Some x \<Rightarrow> x \<le> y))"






text \<open>
  The labelled cells of row \<open>i\<close> of a table, and the shape \<open>pd.read_excel\<close> gives a
  table: pairwise distinct labels, and as many cells in every row as there are labels.
\<close>

definition labelled :: "frame \<Rightarrow> nat \<Rightarrow> (string \<times> cell) list" where
  "labelled df i = zip (columns df) (rows df ! i)"

definition well_formed :: "frame \<Rightarrow> bool" where
  "well_formed df = (distinct (columns df) \<and> list_all (\<lambda>r. length r = length (columns df)) (rows df))"

text \<open>
  The fields the specification promises for the record of a row: the labelled cells of
  the row other than the Brand cell, in table order and as they are, except that the
  cell of the Discount column (when one is resolved) is labelled \<open>Discount\<close> and holds
  the normalised value. The values are native Python values: a \<open>pd.NA\<close>, which is what
  a Discount cell that is no number has become, is \<open>None\<close> in the record.
\<close>

definition normalised :: "runtime \<Rightarrow> cell \<Rightarrow> cell" where
  "normalised py v = (case discount_cell py v of Inr x \<Rightarrow> x | Inl e \<Rightarrow> v)"

definition kept_fields :: "runtime \<Rightarrow> string \<Rightarrow> string option \<Rightarrow> product \<Rightarrow> product" where
  "kept_fields py b d xs =
     map (\<lambda>(c, v). if d = Some c then (''Discount'', box_native (normalised py v))
                    else (c, box_native v))
       (filter (\<lambda>(c, v). c \<noteq> b) xs)"



section \<open>A runtime and tables for concrete runs\<close>

text \<open>
  The concrete runs below use a runtime that reads signed decimal integers (surrounded
  by optional whitespace) as numbers and prints a whole float the way Python does,
  digits followed by \<open>.0\<close>. The tables of these runs hold no other float.
\<close>

definition digit_of :: "char \<Rightarrow> nat option" where
  "digit_of c = (let n = (of_char c :: nat) in if 48 \<le> n \<and> n \<le> 57 then Some (n - 48) else None)"

fun read_digits :: "nat \<Rightarrow> string \<Rightarrow> nat option" where
  "read_digits acc [] = Some acc"
| "read_digits acc (c # cs) =
     (case digit_of c of None \<Rightarrow> None | Some d \<Rightarrow> read_digits (10 * acc + d) cs)"

definition read_integer :: "string \<Rightarrow> rat option" where
  "read_integer s =
     (case strip s of
        [] \<Rightarrow> None
      | c # cs \<Rightarrow>
          if c = CHR ''-'' \<and> cs \<noteq> [] then map_option (\<lambda>n. - of_nat n) (read_digits 0 cs)
          else if c = CHR ''+'' \<and> cs \<noteq> [] then map_option of_nat (read_digits 0 cs)
          else map_option of_nat (read_digits 0 (c # cs)))"

definition sample_runtime :: runtime where
  "sample_runtime = \<lparr>float_str = (\<lambda>q. int_str \<lfloor>q\<rfloor> @ ''.0''), to_number = read_integer\<rparr>"

definition no_brand_table :: frame where
  "no_brand_table =
     \<lparr>columns = [''Name'', ''Products''], rows = [[Text ''Acme'', Text ''Pen'']]\<rparr>"

definition no_description_table :: frame where
  "no_description_table =
     \<lparr>columns = [''Brand'', ''Qty''], rows = [[Text ''Acme'', IntVal 3]]\<rparr>"

definition missing_brand_table :: frame where
  "missing_brand_table =
     \<lparr>columns = [''Brand'', ''Products''],
      rows = [[Text ''Acme'', Text ''Pen''], [NaN, Text ''Ink'']]\<rparr>"



definition missing_price_table :: frame where
  "missing_price_table =
     \<lparr>columns = [''Brand'', ''Products'', ''Price''],
      rows = [[Text ''Acme'', Text ''Pen'', NaN]]\<rparr>"

definition two_case_table :: frame where
  "two_case_table =
     \<lparr>columns = [''Brand'', ''Products''],
      rows = [[Text ''zeta'', Text ''Pen''], [Text ''Alpha'', Text ''Ink''],
              [Text ''Zeta'', Text ''Cap'']]\<rparr>"


definition kept_table :: frame where
  "kept_table =
     \<lparr>columns = [''Brand'', ''Products'', ''Article code '', ''Discount %'', ''Price''],
      rows = [[Text ''Acme'', Text ''Pen'', Text ''A1'', IntVal (- 10), NaN]]\<rparr>"

definition image_clash_table :: frame where
  "image_clash_table =
     \<lparr>columns = [''Brand'', ''Products'', ''Article code '', ''Image''],
      rows = [[Text ''Acme'', Text ''Pen'', Text ''A1'', Text ''old.png'']]\<rparr>"

section \<open>Properties of column resolution\<close>

lemma scan_columns_find:
  "scan_columns cols wanted = List.find (\<lambda>c. lower (strip c) = lower (strip wanted)) cols"
  by (induction cols) simp_all

lemma find_fallback_first_match:
  "find_fallback cols fallbacks =
     first_match cols (concat (map (\<lambda>f. [Exact f, Loose f]) fallbacks))"
  by (induction fallbacks) (simp_all add: scan_columns_find split: option.splits)

text \<open>
  Claim C2. For every header list, canonical name and ordered fallback list, \<open>find_col\<close>
  returns the outcome of the first step of the search order that matches a header
  (exact canonical, loose canonical, then exact and loose for each fallback in listed
  order), and \<open>None\<close> when no step matches.
\<close>

theorem find_col_search_order:
  "find_col cols target_name fallbacks = resolve_spec cols target_name fallbacks"
  by (simp add: find_col_def resolve_spec_def search_order_def scan_columns_find
      find_fallback_first_match split: option.splits)

section \<open>Properties of the Image value\<close>



section \<open>The fatal configuration errors\<close>

text \<open>
  Claim C8. If the Brand column cannot be resolved, the run ends with the error
  \<open>Could not find a 'Brand' column.\<close>; if the Brand column is resolved but the product
  description column can be neither resolved nor inferred (no column other than Brand
  is object-typed), the run ends with the error
  \<open>Could not infer a product description column.\<close>; in both cases no output file is
  opened.
\<close>

theorem unresolved_required_column_is_fatal:
  "(find_col (columns df) (brand_col cfg) [] = None \<longrightarrow>
      convert_excel_to_json py cfg df =
        (Some (ValueError ''Could not find a 'Brand' column.''), NoFile)) \<and>
   (\<forall>b. find_col (columns df) (brand_col cfg) [] = Some b \<and> b \<noteq> [] \<and>
        find_col (columns df) (product_desc_col cfg)
          [''Product'', ''Product name'', ''Description''] = None \<and>
        \<not> (\<exists>c\<in>set (columns df). c \<noteq> b \<and>
              is_object (column_cells (the (index_of c (columns df))) (rows df))) \<longrightarrow>
      convert_excel_to_json py cfg df =
        (Some (ValueError ''Could not infer a product description column.''), NoFile))"
proof (intro conjI impI allI)
  assume "find_col (columns df) (brand_col cfg) [] = None"
  then have "resolve_brand cfg df = Inl (ValueError ''Could not find a 'Brand' column.'')"
    by (simp add: resolve_brand_def falsy_def)
  then show "convert_excel_to_json py cfg df =
        (Some (ValueError ''Could not find a 'Brand' column.''), NoFile)"
    by (simp add: convert_excel_to_json_def build_output_def prepare_def)
next
  fix b
  assume a: "find_col (columns df) (brand_col cfg) [] = Some b \<and> b \<noteq> [] \<and>
        find_col (columns df) (product_desc_col cfg)
          [''Product'', ''Product name'', ''Description''] = None \<and>
        \<not> (\<exists>c\<in>set (columns df). c \<noteq> b \<and>
              is_object (column_cells (the (index_of c (columns df))) (rows df)))"
  then have rb: "resolve_brand cfg df = Inr b"
    by (simp add: resolve_brand_def falsy_def)
  from a have "List.find (\<lambda>c. c \<noteq> b \<and>
        is_object (column_cells (the (index_of c (columns df))) (rows df))) (columns df) = None"
    by (simp add: find_None_iff)
  with a have "resolve_product_desc cfg df b =
      Inl (ValueError ''Could not infer a product description column.'')"
    by (simp add: resolve_product_desc_def falsy_def)
  with rb show "convert_excel_to_json py cfg df =
        (Some (ValueError ''Could not infer a product description column.''), NoFile)"
    by (simp add: convert_excel_to_json_def build_output_def prepare_def)
qed

theorem unresolved_required_column_is_fatal_witness:
  "find_col (columns no_brand_table) (brand_col default_config) [] = None \<and>
   convert_excel_to_json sample_runtime default_config no_brand_table =
     (Some (ValueError ''Could not find a 'Brand' column.''), NoFile) \<and>
   find_col (columns no_description_table) (brand_col default_config) [] = Some ''Brand'' \<and>
   find_col (columns no_description_table) (product_desc_col default_config)
     [''Product'', ''Product name'', ''Description''] = None \<and>
   convert_excel_to_json sample_runtime default_config no_description_table =
     (Some (ValueError ''Could not infer a product description column.''), NoFile)"
proof -
  have h1: "find_col (columns no_brand_table) (brand_col default_config) [] = None"
    by code_simp
  have h2: "find_col (columns no_description_table) (brand_col default_config) [] = Some ''Brand''"
    by code_simp
  have h3: "find_col (columns no_description_table) (product_desc_col default_config)
     [''Product'', ''Product name'', ''Description''] = None"
    by code_simp
  have h4: "\<not> (\<exists>c\<in>set (columns no_description_table). c \<noteq> ''Brand'' \<and>
      is_object (column_cells (the (index_of c (columns no_description_table)))
        (rows no_description_table)))"
    by code_simp
  from unresolved_required_column_is_fatal [of no_brand_table default_config sample_runtime] h1
  have c1: "convert_excel_to_json sample_runtime default_config no_brand_table =
     (Some (ValueError ''Could not find a 'Brand' column.''), NoFile)" by blast
  from unresolved_required_column_is_fatal
    [of no_description_table default_config sample_runtime] h2 h3 h4
  have c2: "convert_excel_to_json sample_runtime default_config no_description_table =
     (Some (ValueError ''Could not infer a product description column.''), NoFile)" by blast
  from h1 h2 h3 c1 c2 show ?thesis by blast
qed

section \<open>Missing values in the output\<close>

text \<open>
  Claim C1. The specification wants a row whose Brand cell is missing to land in a
  group whose name is written as \<open>null\<close>. On the table with the rows (Acme, Pen) and
  (missing, Ink) the program names the second group with the text \<open>nan\<close>: line 50 has
  turned the missing marker into that text before the grouping.
\<close>

theorem missing_brand_is_named_nan:
  "convert_excel_to_json sample_runtime default_config missing_brand_table =
     (None, Written
        [(JString ''Acme'', [[(''Products'', JString ''Pen'')]]),
         (JString ''nan'', [[(''Products'', JString ''Ink'')]])])"
  by code_simp

text \<open>
  Claim C9. The specification wants every missing value of every record written as
  \<open>null\<close>. On the table with one row (Acme, Pen) whose Price cell is empty the run
  succeeds and writes the token \<open>NaN\<close> for the price.
\<close>

theorem missing_cell_written_as_nan_token:
  "convert_excel_to_json sample_runtime default_config missing_price_table =
     (None, Written [(JString ''Acme'', [[(''Products'', JString ''Pen''), (''Price'', JNaN)]])])"
  by code_simp

section \<open>The stages of a successful run\<close>

lemma collect_Inr:
  "collect xs = Inr vs \<Longrightarrow> xs = map Inr vs"
  by (induction xs arbitrary: vs) (auto split: sum.splits)

lemma collect_length: "collect xs = Inr vs \<Longrightarrow> length vs = length xs"
  by (drule collect_Inr) simp

lemma partition_by_key:
  "distinct K \<Longrightarrow>
   mset (concat (map (\<lambda>k. filter (\<lambda>x. f x = k) xs) K)) = mset (filter (\<lambda>x. f x \<in> set K) xs)"
proof (induction K)
  case Nil
  then show ?case by simp
next
  case (Cons k K)
  then have "k \<notin> set K" by simp
  then have "{#x \<in># mset xs. f x = k#} + {#x \<in># mset xs. f x \<in> set K#}
     = {#x \<in># mset xs. f x = k \<or> f x \<in> set K#}"
    by (induction xs) auto
  with Cons show ?case by simp
qed

lemma groupby_partition:
  assumes "groupby label df = Inr gs"
  shows "mset (concat (map snd gs)) = mset [0..<length (rows df)]"
proof -
  define ks where "ks = map group_key (column_cells (the (index_of label (columns df))) (rows df))"
  define K where "K = sort_key key_rank (remdups ks)"
  have n: "length ks = length (rows df)" by (simp add: ks_def column_cells_def)
  from assms have gs: "gs = map (\<lambda>k. (k, filter (\<lambda>i. ks ! i = k) [0..<length ks])) K"
    by (simp add: groupby_def ks_def K_def Let_def split: if_splits)
  have "map snd gs = map (\<lambda>k. filter (\<lambda>i. ks ! i = k) [0..<length ks]) K"
    by (simp add: gs comp_def)
  moreover have "distinct K" by (simp add: K_def)
  ultimately have "mset (concat (map snd gs)) =
      mset (filter (\<lambda>i. ks ! i \<in> set K) [0..<length ks])"
    by (simp only: partition_by_key)
  moreover have "filter (\<lambda>i. ks ! i \<in> set K) [0..<length ks] = [0..<length ks]"
    by (rule filter_True) (simp add: K_def)
  ultimately show ?thesis by (simp only: n)
qed

lemma sort_last_mset: "mset (sort_last k ps) = mset ps"
  by (simp add: sort_last_def)

lemma sort_group_mset: "sort_group df c ps = Inr qs \<Longrightarrow> mset qs = mset ps"
  by (auto simp: sort_group_def Let_def sort_last_mset split: if_splits)

lemma make_group_members:
  "make_group py p g = Inr b \<Longrightarrow>
     mset (members b) = mset (snd g) \<and> products b = map (product_of p) (members b)"
  by (auto simp: make_group_def dest: sort_group_mset split: sum.splits)

lemma made_groups_members:
  assumes "collect (map (make_group py p) gs) = Inr bs"
  shows "mset (concat (map members bs)) = mset (concat (map snd gs))"
    and "\<forall>b\<in>set bs. products b = map (product_of p) (members b)"
proof -
  from assms have eq: "map (make_group py p) gs = map Inr bs" by (rule collect_Inr)
  then have len: "length gs = length bs" by (metis length_map)
  have each: "make_group py p (gs ! i) = Inr (bs ! i)" if "i < length bs" for i
    using that eq len by (metis nth_map)
  have "mset (members (bs ! i)) = mset (snd (gs ! i))" if "i < length bs" for i
    using each [OF that] make_group_members by blast
  then have "map (\<lambda>b. mset (members b)) bs = map (\<lambda>g. mset (snd g)) gs"
    by (intro nth_equalityI) (simp_all add: len)
  then show "mset (concat (map members bs)) = mset (concat (map snd gs))"
    by (simp add: mset_concat comp_def)
  show "\<forall>b\<in>set bs. products b = map (product_of p) (members b)"
    using each make_group_members by (metis in_set_conv_nth)
qed

lemma mset_concat_cong:
  "mset xs = mset ys \<Longrightarrow> mset (concat (map f xs)) = mset (concat (map f ys))"
proof -
  assume a: "mset xs = mset ys"
  have "mset (concat (map f zs)) = (\<Sum>x\<in>#mset zs. mset (f x))" for zs
    by (induction zs) simp_all
  with a show ?thesis by simp
qed

lemma set_column_length: "length vs = length rs \<Longrightarrow> length (set_column i vs rs) = length rs"
  by (simp add: set_column_def)

lemma normalize_discount_rows:
  "normalize_discount py d df = Inr df' \<Longrightarrow> length (rows df') = length (rows df)"
  by (auto simp: normalize_discount_def Let_def set_column_def column_cells_def
      dest!: collect_length split: if_splits sum.splits)

lemma add_image_rows:
  "add_image py base a df = Inr df' \<Longrightarrow> length (rows df') = length (rows df)"
  by (auto simp: add_image_def Let_def set_column_def column_cells_def
      split: if_splits option.splits)

lemma prepare_rows:
  "prepare py cfg df = Inr p \<Longrightarrow> length (rows (table p)) = length (rows df)"
  by (auto simp: prepare_def Let_def strip_brand_def map_column_def
      dest!: normalize_discount_rows add_image_rows split: sum.splits)

lemma build_output_stages:
  assumes "build_output py cfg df = Inr doc"
  obtains p gs bs where
    "prepare py cfg df = Inr p" and
    "groupby (brand p) (table p) = Inr gs" and
    "collect (map (make_group py p) gs) = Inr bs" and
    "doc = sort_brands bs"
  using assms by (auto simp: build_output_def split: sum.splits)



lemma document_rows:
  assumes "build_output py cfg df = Inr doc"
  obtains p where "prepare py cfg df = Inr p"
    and "mset (concat (map members doc)) = mset [0..<length (rows df)]"
    and "\<forall>g\<in>set doc. products g = map (product_of p) (members g)"
proof -
  from assms obtain p gs bs where
    p: "prepare py cfg df = Inr p" and
    gs: "groupby (brand p) (table p) = Inr gs" and
    bs: "collect (map (make_group py p) gs) = Inr bs" and
    doc: "doc = sort_brands bs"
    by (rule build_output_stages)
  have "mset doc = mset bs" by (simp add: doc sort_brands_def)
  then have "mset (concat (map members doc)) = mset (concat (map members bs))"
    by (rule mset_concat_cong)
  also have "\<dots> = mset (concat (map snd gs))" using bs by (rule made_groups_members)
  also have "\<dots> = mset [0..<length (rows (table p))]" using gs by (rule groupby_partition)
  finally have m: "mset (concat (map members doc)) = mset [0..<length (rows df)]"
    using p by (simp only: prepare_rows)
  have pr: "\<forall>g\<in>set doc. products g = map (product_of p) (members g)"
    using made_groups_members(2) [OF bs] by (simp add: doc sort_brands_def)
  from p m pr show ?thesis by (rule that)
qed

section \<open>Grouping is a partition of the rows\<close>

text \<open>
  Claim C5. When the document is built, the row positions recorded in the groups are,
  taken together, exactly the positions of the table's rows, each once: every row is in
  exactly one group. The product counts of the groups add up to the number of rows, and
  the products of a group are the records of its rows.
\<close>

theorem grouping_is_partition:
  assumes "build_output py cfg df = Inr doc"
  shows "mset (concat (map members doc)) = mset [0..<length (rows df)] \<and>
         sum_list (map (\<lambda>b. length (products b)) doc) = length (rows df) \<and>
         (\<exists>p. prepare py cfg df = Inr p \<and>
              (\<forall>b\<in>set doc. products b = map (product_of p) (members b)))"
proof -
  from assms obtain p where p: "prepare py cfg df = Inr p"
    and m: "mset (concat (map members doc)) = mset [0..<length (rows df)]"
    and pr: "\<forall>g\<in>set doc. products g = map (product_of p) (members g)"
    by (rule document_rows)
  have lens: "length (products b) = length (members b)" if "b \<in> set doc" for b
    using pr that by simp
  have "map (\<lambda>b. length (products b)) doc = map (\<lambda>b. length (members b)) doc"
    by (rule map_cong [OF refl]) (rule lens)
  then have "sum_list (map (\<lambda>b. length (products b)) doc) =
      sum_list (map (\<lambda>b. length (members b)) doc)"
    by (simp only:)
  also have "\<dots> = length (concat (map members doc))"
    by (simp add: length_concat comp_def)
  also have "\<dots> = size (mset (concat (map members doc)))" by simp
  also have "\<dots> = length (rows df)" by (simp only: m) simp
  finally show ?thesis using m p pr by blast
qed

theorem grouping_is_partition_witness:
  "build_output sample_runtime default_config two_case_table =
     Inr [\<lparr>name = Some ''Alpha'', members = [1], products = [[(''Products'', Text ''Ink'')]]\<rparr>,
          \<lparr>name = Some ''Zeta'', members = [2], products = [[(''Products'', Text ''Cap'')]]\<rparr>,
          \<lparr>name = Some ''zeta'', members = [0], products = [[(''Products'', Text ''Pen'')]]\<rparr>] \<and>
   mset ([1, 2, 0] :: nat list) = mset [0..<length (rows two_case_table)] \<and>
   (1::nat) + 1 + 1 = length (rows two_case_table)"
proof -
  let ?doc = "[\<lparr>name = Some ''Alpha'', members = [1], products = [[(''Products'', Text ''Ink'')]]\<rparr>,
          \<lparr>name = Some ''Zeta'', members = [2], products = [[(''Products'', Text ''Cap'')]]\<rparr>,
          \<lparr>name = Some ''zeta'', members = [0], products = [[(''Products'', Text ''Pen'')]]\<rparr>]"
  have e: "build_output sample_runtime default_config two_case_table = Inr ?doc"
    by code_simp
  from grouping_is_partition [OF e]
  have "mset (concat (map members ?doc)) = mset [0..<length (rows two_case_table)]"
    and "sum_list (map (\<lambda>b. length (products b)) ?doc) = length (rows two_case_table)"
    by blast+
  then have "mset ([1, 2, 0] :: nat list) = mset [0..<length (rows two_case_table)]"
    and "(1::nat) + 1 + 1 = length (rows two_case_table)"
    by simp_all
  with e show ?thesis by blast
qed

section \<open>The order of the groups\<close>

lemma build_output_sorted:
  assumes "build_output py cfg df = Inr doc"
  shows "\<exists>bs. doc = sort_brands bs"
  using assms by (rule build_output_stages) blast

lemma sort_brands_nth_mono:
  assumes "i < j" "j < length (sort_brands bs)"
  shows "brand_sort_key (sort_brands bs ! i) \<le> brand_sort_key (sort_brands bs ! j)"
proof -
  have "sorted (map brand_sort_key (sort_brands bs))"
    by (simp add: sort_brands_def)
  moreover from assms have "i \<le> j" "j < length (map brand_sort_key (sort_brands bs))" by simp_all
  ultimately have "map brand_sort_key (sort_brands bs) ! i \<le> map brand_sort_key (sort_brands bs) ! j"
    by (rule sorted_nth_mono)
  with assms show ?thesis by simp
qed

text \<open>
  Claim C6. In the document, a group with a name is preceded only by groups with a name
  (so a group without a name comes after all named groups), and each of the groups
  before it has a name that is lower or equal when both are lower-cased.
\<close>

theorem brands_sorted_missing_last:
  assumes "build_output py cfg df = Inr doc" and "i < j" and "j < length doc"
  shows "name (doc ! j) \<noteq> None \<longrightarrow>
           name (doc ! i) \<noteq> None \<and>
           lower (the (name (doc ! i))) \<le> lower (the (name (doc ! j)))"
proof -
  from assms(1) obtain bs where d: "doc = sort_brands bs"
    using build_output_sorted by blast
  with assms have "brand_sort_key (doc ! i) \<le> brand_sort_key (doc ! j)"
    using sort_brands_nth_mono by blast
  then show ?thesis
    by (auto simp: brand_sort_key_def less_eq_prod_def split: option.splits)
qed

theorem brands_sorted_missing_last_witness:
  "build_output sample_runtime default_config two_case_table =
     Inr [\<lparr>name = Some ''Alpha'', members = [1], products = [[(''Products'', Text ''Ink'')]]\<rparr>,
          \<lparr>name = Some ''Zeta'', members = [2], products = [[(''Products'', Text ''Cap'')]]\<rparr>,
          \<lparr>name = Some ''zeta'', members = [0], products = [[(''Products'', Text ''Pen'')]]\<rparr>] \<and>
   lower ''Alpha'' \<le> lower ''zeta'' \<and> lower ''Zeta'' \<le> lower ''zeta''"
proof -
  let ?doc = "[\<lparr>name = Some ''Alpha'', members = [1], products = [[(''Products'', Text ''Ink'')]]\<rparr>,
          \<lparr>name = Some ''Zeta'', members = [2], products = [[(''Products'', Text ''Cap'')]]\<rparr>,
          \<lparr>name = Some ''zeta'', members = [0], products = [[(''Products'', Text ''Pen'')]]\<rparr>]"
  have e: "build_output sample_runtime default_config two_case_table = Inr ?doc"
    by code_simp
  have "(0::nat) < 2" and "(1::nat) < 2" and "2 < length ?doc" by simp_all
  from brands_sorted_missing_last [OF e \<open>(0::nat) < 2\<close> \<open>2 < length ?doc\<close>]
  have a: "lower ''Alpha'' \<le> lower ''zeta''" by simp
  from brands_sorted_missing_last [OF e \<open>(1::nat) < 2\<close> \<open>2 < length ?doc\<close>]
  have b: "lower ''Zeta'' \<le> lower ''zeta''" by simp
  from e a b show ?thesis by blast
qed


section \<open>The order of the products of a group\<close>

lemma key_le_None [simp]: "key_le a None" by (simp add: key_le_def)
lemma key_le_Some [simp]: "key_le (Some x) (Some y) = (x \<le> y)" by (simp add: key_le_def)















section \<open>What a product record keeps of its row\<close>

lemma scan_columns_in: "scan_columns cols w = Some c \<Longrightarrow> c \<in> set cols"
  by (induction cols) (auto split: if_splits)

lemma find_fallback_in: "find_fallback cols fs = Some c \<Longrightarrow> c \<in> set cols"
  by (induction fs) (auto split: if_splits option.splits dest: scan_columns_in)

lemma find_col_in: "find_col cols t fs = Some c \<Longrightarrow> c \<in> set cols"
  by (auto simp: find_col_def split: if_splits option.splits
      dest: scan_columns_in find_fallback_in)

lemma index_of_Some:
  "c \<in> set cols \<Longrightarrow> \<exists>i. index_of c cols = Some i \<and> i < length cols \<and> cols ! i = c"
  by (induction cols) auto

lemma index_of_None: "c \<notin> set cols \<Longrightarrow> index_of c cols = None"
  by (induction cols) auto

lemma zip_update_map:
  "distinct cols \<Longrightarrow> index_of c cols = Some i \<Longrightarrow> length r = length cols \<Longrightarrow>
   zip (cols[i := c']) (r[i := h (r ! i)]) =
     map (\<lambda>(k, v). if k = c then (c', h v) else (k, v)) (zip cols r)"
proof (induction cols arbitrary: i r)
  case Nil
  then show ?case by simp
next
  case (Cons x xs)
  then obtain y ys where r: "r = y # ys" by (cases r) auto
  show ?case
  proof (cases "x = c")
    case True
    with Cons.prems have i: "i = 0" by simp
    from True Cons.prems have "c \<notin> set xs" by simp
    then have "map (\<lambda>(k, v). if k = c then (c', h v) else (k, v)) (zip xs ys) = zip xs ys"
      by (intro map_idI) (auto dest: set_zip_leftD)
    with True i r show ?thesis by simp
  next
    case False
    with Cons.prems obtain j where j: "index_of c xs = Some j" "i = Suc j" by auto
    from Cons.prems r have "distinct xs" "length ys = length xs" by simp_all
    from Cons.IH [OF this(1) j(1) this(2)] False j r show ?thesis by simp
  qed
qed

lemma dict_set_fresh: "k \<notin> fst ` set d \<Longrightarrow> dict_set k v d = d @ [(k, v)]"
  by (induction d) auto

lemma to_record_acc:
  "distinct ks \<Longrightarrow> set ks \<inter> fst ` set acc = {} \<Longrightarrow>
   foldl (\<lambda>d (k, v). dict_set k (box_native v) d) acc (zip ks vs) =
     acc @ zip ks (map box_native vs)"
proof (induction ks arbitrary: acc vs)
  case Nil
  then show ?case by simp
next
  case (Cons k ks)
  show ?case
  proof (cases vs)
    case Nil
    then show ?thesis by simp
  next
    case (Cons v vs')
    from Cons.prems have fresh: "k \<notin> fst ` set acc" by auto
    from Cons.prems have "distinct ks" "set ks \<inter> fst ` set (acc @ [(k, box_native v)]) = {}"
      by auto
    from Cons.IH [OF this, of vs'] fresh Cons show ?thesis
      by (simp add: dict_set_fresh)
  qed
qed

lemma to_record_distinct: "distinct ks \<Longrightarrow> to_record ks vs = zip ks (map box_native vs)"
  using to_record_acc [of ks "[]" vs] by (simp add: to_record_def)

lemma zip_fst_mapped: "zip (map fst xs) (map f (map snd xs)) = map (\<lambda>(c, v). (c, f v)) xs"
  by (induction xs) auto

lemma product_of_zip:
  assumes "distinct (columns (table p))"
    and "length (rows (table p) ! i) = length (columns (table p))"
  shows "product_of p i =
     map (\<lambda>(c, v). (c, box_native v))
       (filter (\<lambda>(c, v). c \<noteq> brand p) (zip (columns (table p)) (rows (table p) ! i)))"
proof -
  let ?cs = "columns (table p)" and ?r = "rows (table p) ! i"
  let ?xs = "filter (\<lambda>(c, v). c \<noteq> brand p) (zip ?cs ?r)"
  have "map fst ?xs = filter (\<lambda>c. c \<noteq> brand p) (map fst (zip ?cs ?r))"
    by (simp add: filter_map comp_def case_prod_unfold)
  also have "\<dots> = filter (\<lambda>c. c \<noteq> brand p) ?cs" using assms(2) by simp
  finally have ks: "filter (\<lambda>c. c \<noteq> brand p) ?cs = map fst ?xs" by simp
  have "distinct (filter (\<lambda>c. c \<noteq> brand p) ?cs)" using assms(1) by simp
  then have "product_of p i =
      zip (filter (\<lambda>c. c \<noteq> brand p) ?cs) (map box_native (drop_label (brand p) ?cs ?r))"
    by (simp add: product_of_def to_record_distinct)
  also have "\<dots> = zip (map fst ?xs) (map box_native (map snd ?xs))"
    by (simp only: ks drop_label_def)
  also have "\<dots> = map (\<lambda>(c, v). (c, box_native v)) ?xs"
    by (rule zip_fst_mapped)
  finally show ?thesis .
qed

lemma well_formed_row:
  "well_formed df \<Longrightarrow> i < length (rows df) \<Longrightarrow> length (rows df ! i) = length (columns df)"
  by (simp add: well_formed_def list_all_length)

lemma strip_brand_labelled:
  assumes "well_formed df" and "b \<in> set (columns df)" and "i < length (rows df)"
  shows "labelled (strip_brand py b df) i =
     map (\<lambda>(k, v). if k = b then (b, Text (strip (py_str py v))) else (k, v)) (labelled df i)"
proof -
  from assms(2) obtain j where j: "index_of b (columns df) = Some j" "j < length (columns df)"
      "columns df ! j = b"
    using index_of_Some by blast
  from assms have len: "length (rows df ! i) = length (columns df)" by (simp add: well_formed_row)
  from assms(1) have d: "distinct (columns df)" by (simp add: well_formed_def)
  have "(columns df)[j := b] = columns df" using j by (metis list_update_id)
  with zip_update_map [OF d j(1) len, of b "\<lambda>v. Text (strip (py_str py v))"]
  show ?thesis using assms(3) j(1)
    by (simp add: labelled_def strip_brand_def map_column_def)
qed

lemma strip_brand_well_formed:
  "well_formed df \<Longrightarrow> well_formed (strip_brand py b df)"
  by (simp add: well_formed_def strip_brand_def map_column_def list_all_iff)

lemma strip_brand_shape:
  "columns (strip_brand py b df) = columns df"
  "length (rows (strip_brand py b df)) = length (rows df)"
  by (simp_all add: strip_brand_def map_column_def)

lemma normalize_discount_skip:
  "falsy d \<Longrightarrow> normalize_discount py d df = Inr df"
  by (simp add: normalize_discount_def)

lemma normalize_discount_run:
  assumes "\<not> falsy d" and "d = Some dc" and "dc \<in> set (columns df)"
    and "normalize_discount py d df = Inr df'"
  obtains j vs where "index_of dc (columns df) = Some j" and "j < length (columns df)"
    and "columns df ! j = dc"
    and "map (discount_cell py) (column_cells j (rows df)) = map Inr vs"
    and "df' = \<lparr>columns = (columns df)[j := ''Discount''], rows = set_column j vs (rows df)\<rparr>"
proof -
  from assms(3) obtain j where j: "index_of dc (columns df) = Some j" "j < length (columns df)"
      "columns df ! j = dc"
    using index_of_Some by blast
  from assms j(1) obtain vs where
    c: "collect (map (discount_cell py) (column_cells j (rows df))) = Inr vs" and
    d: "df' = \<lparr>columns = (columns df)[j := ''Discount''], rows = set_column j vs (rows df)\<rparr>"
    by (auto simp: normalize_discount_def Let_def split: sum.splits)
  from c have "map (discount_cell py) (column_cells j (rows df)) = map Inr vs"
    by (rule collect_Inr)
  with j d show ?thesis by (intro that)
qed

lemma normalize_discount_labelled:
  assumes wf: "well_formed df" and nf: "\<not> falsy d" and d: "d = Some dc"
    and dc: "dc \<in> set (columns df)"
    and run: "normalize_discount py d df = Inr df'"
    and i: "i < length (rows df)"
  shows "labelled df' i =
     map (\<lambda>(k, v). if k = dc then (''Discount'', normalised py v) else (k, v)) (labelled df i)"
    and "length (rows df') = length (rows df)"
    and "columns df' = (columns df)[the (index_of dc (columns df)) := ''Discount'']"
    and "list_all (\<lambda>r. length r = length (columns df')) (rows df')"
proof -
  from nf d dc run obtain j vs where
    j: "index_of dc (columns df) = Some j" "j < length (columns df)" "columns df ! j = dc" and
    vs: "map (discount_cell py) (column_cells j (rows df)) = map Inr vs" and
    df': "df' = \<lparr>columns = (columns df)[j := ''Discount''], rows = set_column j vs (rows df)\<rparr>"
    by (rule normalize_discount_run)
  from vs have len: "length vs = length (rows df)"
    by (metis length_map column_cells_def)
  then show "length (rows df') = length (rows df)"
    by (simp add: df' set_column_def)
  show "columns df' = (columns df)[the (index_of dc (columns df)) := ''Discount'']"
    by (simp add: df' j(1))
  from wf have "list_all (\<lambda>r. length r = length (columns df)) (rows df)"
    by (simp add: well_formed_def)
  then show "list_all (\<lambda>r. length r = length (columns df')) (rows df')"
    by (auto simp: df' set_column_def list_all_iff dest: set_zip_leftD)
  from i len have row: "set_column j vs (rows df) ! i = (rows df ! i)[j := vs ! i]"
    by (simp add: set_column_def)
  from i len have "map (discount_cell py) (column_cells j (rows df)) ! i =
      discount_cell py (rows df ! i ! j)"
    by (simp add: column_cells_def)
  moreover from i len have "map Inr vs ! i = (Inr (vs ! i) :: error + cell)" by simp
  ultimately have "discount_cell py (rows df ! i ! j) = Inr (vs ! i)"
    by (simp only: vs)
  then have h: "vs ! i = normalised py (rows df ! i ! j)"
    by (simp add: normalised_def)
  from wf i have rl: "length (rows df ! i) = length (columns df)" by (rule well_formed_row)
  from wf have dist: "distinct (columns df)" by (simp add: well_formed_def)
  from zip_update_map [OF dist j(1) rl, of "''Discount''" "normalised py"]
  show "labelled df' i =
     map (\<lambda>(k, v). if k = dc then (''Discount'', normalised py v) else (k, v)) (labelled df i)"
    by (simp add: labelled_def df' row h)
qed

lemma add_image_labelled:
  assumes run: "add_image py base a df = Inr df'"
    and fresh: "''Image'' \<notin> set (columns df)"
    and rl: "list_all (\<lambda>r. length r = length (columns df)) (rows df)"
    and i: "i < length (rows df)"
  shows "\<exists>img. labelled df' i = labelled df i @ img \<and>
           (img = [] \<or> (\<exists>u. img = [(''Image'', u)]) \<and> \<not> falsy a \<and> base \<noteq> [])"
    and "length (rows df') = length (rows df)"
    and "columns df' = columns df \<or> columns df' = columns df @ [''Image'']"
    and "list_all (\<lambda>r. length r = length (columns df')) (rows df')"
proof -
  let ?on = "\<not> falsy a \<and> the a \<in> set (columns df) \<and> base \<noteq> []"
  let ?vs = "map (build_image py base)
               (column_cells (the (index_of (the a) (columns df))) (rows df))"
  have lv: "length ?vs = length (rows df)" by (simp add: column_cells_def)
  from fresh have none: "index_of ''Image'' (columns df) = None" by (rule index_of_None)
  have cases: "df' = df \<or> (?on \<and> df' = \<lparr>columns = columns df @ [''Image''],
       rows = map (\<lambda>(r, v). r @ [v]) (zip (rows df) ?vs)\<rparr>)"
    using run none by (auto simp: add_image_def Let_def split: if_splits)
  from rl i have li: "length (rows df ! i) = length (columns df)"
    by (simp add: list_all_length)
  from cases show "\<exists>img. labelled df' i = labelled df i @ img \<and>
           (img = [] \<or> (\<exists>u. img = [(''Image'', u)]) \<and> \<not> falsy a \<and> base \<noteq> [])"
  proof
    assume "df' = df"
    then have "labelled df' i = labelled df i @ []" by simp
    then show ?thesis by blast
  next
    assume a: "?on \<and> df' = \<lparr>columns = columns df @ [''Image''],
       rows = map (\<lambda>(r, v). r @ [v]) (zip (rows df) ?vs)\<rparr>"
    with i lv have "rows df' ! i = rows df ! i @ [?vs ! i]" by simp
    with a li have "labelled df' i = labelled df i @ [(''Image'', ?vs ! i)]"
      by (simp add: labelled_def)
    with a show ?thesis by blast
  qed
  from cases lv show "length (rows df') = length (rows df)" by auto
  from cases show "columns df' = columns df \<or> columns df' = columns df @ [''Image'']" by auto
  from cases rl show "list_all (\<lambda>r. length r = length (columns df')) (rows df')"
    by (auto simp: list_all_iff dest!: set_zip_leftD)
qed

lemma prepare_stages:
  assumes "prepare py cfg df = Inr p"
  obtains df2 where
    "resolve_brand cfg df = Inr (brand p)" and
    "normalize_discount py (resolve_discount cfg df) (strip_brand py (brand p) df) = Inr df2" and
    "add_image py (image_base_url cfg) (resolve_article_code cfg df) df2 = Inr (table p)"
proof -
  from assms obtain b where b: "resolve_brand cfg df = Inr b"
    by (cases "resolve_brand cfg df") (simp_all add: prepare_def)
  with assms obtain pd where pd: "resolve_product_desc cfg df b = Inr pd"
    by (cases "resolve_product_desc cfg df b") (simp_all add: prepare_def)
  from assms b pd obtain df2 where
    n: "normalize_discount py (resolve_discount cfg df) (strip_brand py b df) = Inr df2"
    by (cases "normalize_discount py (resolve_discount cfg df) (strip_brand py b df)")
       (simp_all add: prepare_def Let_def)
  from assms b pd n obtain df3 where
    a: "add_image py (image_base_url cfg) (resolve_article_code cfg df) df2 = Inr df3"
    by (cases "add_image py (image_base_url cfg) (resolve_article_code cfg df) df2")
       (simp_all add: prepare_def Let_def)
  from assms b pd n a have "brand p = b" "table p = df3"
    by (auto simp: prepare_def Let_def)
  with b n a show ?thesis by (intro that) simp_all
qed

lemma resolve_brand_in:
  "resolve_brand cfg df = Inr b \<Longrightarrow> b \<in> set (columns df)"
  by (auto simp: resolve_brand_def Let_def falsy_def split: if_splits option.splits
      dest: find_col_in)

lemma resolve_discount_in:
  "resolve_discount cfg df = Some dc \<Longrightarrow> dc \<in> set (columns df)"
  by (auto simp: resolve_discount_def dest: find_col_in)

lemma discount_stage:
  assumes wf: "well_formed df1"
    and b: "b \<in> set (columns df1)"
    and disc: "''Discount'' \<in> set (columns df1) \<longrightarrow> d = Some ''Discount''"
    and db: "d \<noteq> Some b"
    and din: "\<And>dc. d = Some dc \<Longrightarrow> dc \<in> set (columns df1)"
    and run: "normalize_discount py d df1 = Inr df2"
    and i: "i < length (rows df1)"
  shows "labelled df2 i =
           map (\<lambda>(k, v). if (if falsy d then None else d) = Some k
                           then (''Discount'', normalised py v) else (k, v))
             (labelled df1 i)"
    and "distinct (columns df2)"
    and "list_all (\<lambda>r. length r = length (columns df2)) (rows df2)"
    and "length (rows df2) = length (rows df1)"
proof -
  from wf have dist: "distinct (columns df1)"
    and rl: "list_all (\<lambda>r. length r = length (columns df1)) (rows df1)"
    by (simp_all add: well_formed_def)
  show "labelled df2 i =
           map (\<lambda>(k, v). if (if falsy d then None else d) = Some k
                           then (''Discount'', normalised py v) else (k, v))
             (labelled df1 i)"
  proof (cases "falsy d")
    case True
    with run have "df2 = df1" by (simp add: normalize_discount_skip)
    with True show ?thesis by (simp add: case_prod_unfold)
  next
    case False
    then obtain dc where dc: "d = Some dc" by (auto simp: falsy_def split: option.splits)
    from normalize_discount_labelled(1) [OF wf False dc din [OF dc] run i]
    have "labelled df2 i =
       map (\<lambda>(k, v). if k = dc then (''Discount'', normalised py v) else (k, v)) (labelled df1 i)" .
    moreover have "(\<lambda>(k, v). if k = dc then (''Discount'', normalised py v) else (k, v)) =
       (\<lambda>(k, v). if (if falsy d then None else d) = Some k
                 then (''Discount'', normalised py v) else (k, v))"
      using False dc by auto
    ultimately show ?thesis by simp
  qed
  have shape: "distinct (columns df2) \<and>
      list_all (\<lambda>r. length r = length (columns df2)) (rows df2) \<and>
      length (rows df2) = length (rows df1)"
  proof (cases "falsy d")
    case True
    with run have "df2 = df1" by (simp add: normalize_discount_skip)
    with dist rl show ?thesis by simp
  next
    case False
    then obtain dc where dc: "d = Some dc" by (auto simp: falsy_def split: option.splits)
    note facts = normalize_discount_labelled [OF wf False dc din [OF dc] run i]
    from din [OF dc] obtain j where j: "index_of dc (columns df1) = Some j"
        "j < length (columns df1)" "columns df1 ! j = dc"
      using index_of_Some by blast
    from facts(3) j(1) have cols: "columns df2 = (columns df1)[j := ''Discount'']" by simp
    from disc dc j(3) have "''Discount'' \<notin> set (columns df1) - {columns df1 ! j}" by auto
    with dist have "distinct ((columns df1)[j := ''Discount''])" by (rule distinct_list_update)
    then show ?thesis using facts(2) facts(4) cols by simp
  qed
  then show "distinct (columns df2)"
    and "list_all (\<lambda>r. length r = length (columns df2)) (rows df2)"
    and "length (rows df2) = length (rows df1)"
    by simp_all
qed

lemma normalize_discount_no_image:
  assumes "normalize_discount py d df1 = Inr df2" and "''Image'' \<notin> set (columns df1)"
  shows "''Image'' \<notin> set (columns df2)"
proof (cases "\<not> falsy d \<and> the d \<in> set (columns df1)")
  case False
  with assms show ?thesis by (auto simp: normalize_discount_def)
next
  case True
  with assms(1) have "columns df2 = (columns df1)[the (index_of (the d) (columns df1)) := ''Discount'']"
    by (auto simp: normalize_discount_def Let_def split: sum.splits)
  moreover have "set ((columns df1)[the (index_of (the d) (columns df1)) := ''Discount''])
      \<subseteq> insert ''Discount'' (set (columns df1))"
    by (rule set_update_subset_insert)
  ultimately show ?thesis using assms(2) by auto
qed

lemma kept_fields_stages:
  assumes "d \<noteq> Some b" and "''Discount'' \<noteq> b"
  shows "map (\<lambda>(c, v). (c, box_native v))
           (filter (\<lambda>(c, v). c \<noteq> b)
              (map (\<lambda>(k, v). if d = Some k then (''Discount'', normalised py v) else (k, v))
                 (map (\<lambda>(k, v). if k = b then (b, f v) else (k, v)) xs))) =
         kept_fields py b d xs"
  using assms by (induction xs) (auto simp: kept_fields_def split: if_splits)

text \<open>
  Claim C10, as the program has it. The claim fails on a table that already has a
  column labelled \<open>Image\<close>: the program overwrites it, as the last run of this
  section shows. For a table of the shape \<open>pd.read_excel\<close> gives, with no column
  labelled \<open>Image\<close>, no column labelled \<open>Discount\<close> other than the resolved Discount
  column, and Brand and Discount resolved to different columns: when the document is
  built, the
  record of every product is made from one row of the table and consists of the
  labelled cells of that row other than the Brand cell, unchanged and in table order,
  except that the Discount cell is labelled \<open>Discount\<close> and normalised (\<open>None\<close> when
  the cell is not a number); an \<open>Image\<close>
  field follows only when the Article Code column was resolved and the base URL is not
  empty. The record has no other field.
\<close>

theorem product_keeps_columns:
  assumes out: "build_output py cfg df = Inr doc"
    and wf: "well_formed df"
    and noimg: "''Image'' \<notin> set (columns df)"
    and disc: "''Discount'' \<in> set (columns df) \<longrightarrow> resolve_discount cfg df = Some ''Discount''"
    and rb: "resolve_brand cfg df = Inr b"
    and db: "resolve_discount cfg df \<noteq> Some b"
    and g: "g \<in> set doc" and k: "k < length (members g)"
  shows "members g ! k < length (rows df) \<and>
     (\<exists>img. products g ! k =
        kept_fields py b
          (if falsy (resolve_discount cfg df) then None else resolve_discount cfg df)
          (labelled df (members g ! k)) @ img \<and>
        (img = [] \<or>
         (\<exists>u. img = [(''Image'', u)]) \<and> \<not> falsy (resolve_article_code cfg df) \<and>
           image_base_url cfg \<noteq> []))"
proof -
  let ?d = "resolve_discount cfg df"
  let ?i = "members g ! k"
  from out obtain p where p: "prepare py cfg df = Inr p"
    and m: "mset (concat (map members doc)) = mset [0..<length (rows df)]"
    and pr: "\<forall>g\<in>set doc. products g = map (product_of p) (members g)"
    by (rule document_rows)
  from p obtain df2 where rb': "resolve_brand cfg df = Inr (brand p)"
    and nd: "normalize_discount py ?d (strip_brand py (brand p) df) = Inr df2"
    and ai: "add_image py (image_base_url cfg) (resolve_article_code cfg df) df2 = Inr (table p)"
    by (rule prepare_stages)
  from rb rb' have bp: "brand p = b" by simp
  from rb have bin: "b \<in> set (columns df)" by (rule resolve_brand_in)
  from k have "?i \<in> set (members g)" by simp
  with g have "?i \<in> set (concat (map members doc))" by auto
  then have "?i \<in># mset (concat (map members doc))" by simp
  then have "?i \<in># mset [0..<length (rows df)]" by (simp only: m)
  then have i: "?i < length (rows df)" by simp
  let ?df1 = "strip_brand py b df"
  have wf1: "well_formed ?df1" using wf by (rule strip_brand_well_formed)
  have c1: "columns ?df1 = columns df" and n1: "length (rows ?df1) = length (rows df)"
    by (rule strip_brand_shape)+
  have l1: "labelled ?df1 ?i =
      map (\<lambda>(k, v). if k = b then (b, Text (strip (py_str py v))) else (k, v)) (labelled df ?i)"
    using wf bin i by (rule strip_brand_labelled)
  from bin noimg have b_img: "''Image'' \<noteq> b" by auto
  from bin disc db have b_disc: "''Discount'' \<noteq> b" by auto
  from db have db': "(if falsy ?d then None else ?d) \<noteq> Some b" by auto
  have din: "\<And>dc. ?d = Some dc \<Longrightarrow> dc \<in> set (columns ?df1)"
    by (simp only: c1) (rule resolve_discount_in)
  have bin1: "b \<in> set (columns ?df1)" using bin by (simp add: c1)
  have noimg1: "''Image'' \<notin> set (columns ?df1)" using noimg by (simp add: c1)
  have disc1: "''Discount'' \<in> set (columns ?df1) \<longrightarrow> ?d = Some ''Discount''"
    using disc by (simp add: c1)
  have i1: "?i < length (rows ?df1)" using i by (simp add: n1)
  from nd bp have nd': "normalize_discount py ?d ?df1 = Inr df2" by simp
  note st = discount_stage [OF wf1 bin1 disc1 db din nd' i1]
  from nd' noimg1 have noimg2: "''Image'' \<notin> set (columns df2)"
    by (rule normalize_discount_no_image)
  from i1 st(4) have i2: "?i < length (rows df2)" by simp
  note im = add_image_labelled [OF ai noimg2 st(3) i2]
  from im(1) obtain img where
    l3: "labelled (table p) ?i = labelled df2 ?i @ img" and
    img: "img = [] \<or> (\<exists>u. img = [(''Image'', u)]) \<and> \<not> falsy (resolve_article_code cfg df) \<and>
           image_base_url cfg \<noteq> []"
    by blast
  from im(3) st(2) noimg2 have dist3: "distinct (columns (table p))" by auto
  from im(2) i2 have i3: "?i < length (rows (table p))" by simp
  with im(4) have len3: "length (rows (table p) ! ?i) = length (columns (table p))"
    by (simp add: list_all_length)
  let ?box = "map (\<lambda>(c, v). (c, box_native v))"
  let ?keep = "filter (\<lambda>(c, v). c \<noteq> b)"
  from product_of_zip [OF dist3 len3]
  have "product_of p ?i = ?box (?keep (labelled (table p) ?i))"
    by (simp add: labelled_def bp)
  also have "\<dots> = ?box (?keep (labelled df2 ?i)) @ ?box (?keep img)"
    by (simp add: l3)
  also have "?box (?keep (labelled df2 ?i)) =
      kept_fields py b (if falsy ?d then None else ?d) (labelled df ?i)"
    by (simp only: st(1) l1 kept_fields_stages [OF db' b_disc])
  finally have rec: "product_of p ?i =
      kept_fields py b (if falsy ?d then None else ?d) (labelled df ?i) @ ?box (?keep img)" .
  define last_field where "last_field = ?box (?keep img)"
  from img b_img have img': "last_field = [] \<or>
      (\<exists>u. last_field = [(''Image'', u)]) \<and> \<not> falsy (resolve_article_code cfg df) \<and>
           image_base_url cfg \<noteq> []"
    by (auto simp: last_field_def)
  from pr g k have "products g ! k = product_of p ?i" by simp
  with rec have fin: "products g ! k =
      kept_fields py b (if falsy ?d then None else ?d) (labelled df ?i) @ last_field"
    by (simp add: last_field_def)
  show ?thesis
  proof (intro conjI exI)
    show "?i < length (rows df)" by (rule i)
    show "products g ! k =
      kept_fields py b (if falsy ?d then None else ?d) (labelled df ?i) @ last_field"
      by (rule fin)
    show "last_field = [] \<or>
      (\<exists>u. last_field = [(''Image'', u)]) \<and> \<not> falsy (resolve_article_code cfg df) \<and>
           image_base_url cfg \<noteq> []"
      by (rule img')
  qed
qed

theorem product_keeps_columns_witness:
  "build_output sample_runtime default_config kept_table =
     Inr [\<lparr>name = Some ''Acme'', members = [0],
            products =
              [[(''Products'', Text ''Pen''), (''Article code '', Text ''A1''),
                (''Discount'', IntVal 10), (''Price'', NaN),
                (''Image'', Text
                  ''https://cdn.jsdelivr.net/gh/TVScoundrel/artstory-data-sources@main/product-images/A1.jpg'')]]\<rparr>] \<and>
   well_formed kept_table \<and>
   ''Image'' \<notin> set (columns kept_table) \<and>
   ''Discount'' \<notin> set (columns kept_table) \<and>
   resolve_brand default_config kept_table = Inr ''Brand'' \<and>
   resolve_discount default_config kept_table = Some ''Discount %'' \<and>
   kept_fields sample_runtime ''Brand'' (Some ''Discount %'') (labelled kept_table 0) =
     [(''Products'', Text ''Pen''), (''Article code '', Text ''A1''),
      (''Discount'', IntVal 10), (''Price'', NaN)] \<and>
   (\<exists>img. [(''Products'', Text ''Pen''), (''Article code '', Text ''A1''),
            (''Discount'', IntVal 10), (''Price'', NaN),
            (''Image'', Text
              ''https://cdn.jsdelivr.net/gh/TVScoundrel/artstory-data-sources@main/product-images/A1.jpg'')] =
           kept_fields sample_runtime ''Brand'' (Some ''Discount %'') (labelled kept_table 0) @ img)"
proof -
  let ?prod = "[(''Products'', Text ''Pen''), (''Article code '', Text ''A1''),
                (''Discount'', IntVal 10), (''Price'', NaN),
                (''Image'', Text
                  ''https://cdn.jsdelivr.net/gh/TVScoundrel/artstory-data-sources@main/product-images/A1.jpg'')]"
  let ?g = "\<lparr>name = Some ''Acme'', members = [0], products = [?prod]\<rparr>"
  have e: "build_output sample_runtime default_config kept_table = Inr [?g]"
    by code_simp
  have wf: "well_formed kept_table" by code_simp
  have ni: "''Image'' \<notin> set (columns kept_table)" by code_simp
  have nd: "''Discount'' \<notin> set (columns kept_table)" by code_simp
  have rb: "resolve_brand default_config kept_table = Inr ''Brand''" by code_simp
  have rd: "resolve_discount default_config kept_table = Some ''Discount %''" by code_simp
  have kf: "kept_fields sample_runtime ''Brand'' (Some ''Discount %'') (labelled kept_table 0) =
     [(''Products'', Text ''Pen''), (''Article code '', Text ''A1''),
      (''Discount'', IntVal 10), (''Price'', NaN)]"
    by code_simp
  have nf: "\<not> falsy (resolve_discount default_config kept_table)" by code_simp
  from nd have h4: "''Discount'' \<in> set (columns kept_table) \<longrightarrow>
      resolve_discount default_config kept_table = Some ''Discount''" by blast
  from rd have h6: "resolve_discount default_config kept_table \<noteq> Some ''Brand''" by simp
  have h7: "?g \<in> set [?g]" by simp
  have h8: "0 < length (members ?g)" by simp
  from product_keeps_columns [OF e wf ni h4 rb h6 h7 h8]
  have "\<exists>img. ?prod =
      kept_fields sample_runtime ''Brand'' (Some ''Discount %'') (labelled kept_table 0) @ img"
    using nf rd by auto
  with e wf ni nd rb rd kf show ?thesis by blast
qed

text \<open>
  The table with the columns Brand, Products, Article code and Image and the row
  (Acme, Pen, A1, old.png): the record's \<open>Image\<close> field is the synthesised URL, the
  value \<open>old.png\<close> of the original column is gone.
\<close>

theorem image_column_overwritten:
  "labelled image_clash_table 0 ! 3 = (''Image'', Text ''old.png'') \<and>
   build_output sample_runtime default_config image_clash_table =
     Inr [\<lparr>name = Some ''Acme'', members = [0],
            products =
              [[(''Products'', Text ''Pen''), (''Article code '', Text ''A1''),
                (''Image'', Text
                  ''https://cdn.jsdelivr.net/gh/TVScoundrel/artstory-data-sources@main/product-images/A1.jpg'')]]\<rparr>]"
  by code_simp

section \<open>The Discount field of a record\<close>


















end
